theory Spec2Isabelle
  imports Complex_Main
begin

section \<open>The TRI engine (src/src/logic/tri_engine.py)\<close>

text \<open>
  The engine computes with IEEE 754 binary64 numbers (Python \<open>float\<close>, numpy
  \<open>float64\<close>). A finite number of that format is written as the real number it denotes,
  and the result of every operation is rounded to the format, to the nearest value with ties
  to the even significand, as the hardware does. The two zeros of the format are one value
  here: they compare equal, and no operation of the engine tells them apart (it never
  divides by zero: every divisor is \<open>1 + np.exp(...)\<close>).
\<close>

subsection \<open>Constants of the scales\<close>





subsection \<open>Exceptions\<close>

text \<open>
  The exceptions the code of the engine can raise by itself: \<open>parametros_itens[i]\<close> out
  of range, \<open>resultado.x[0]\<close> on an empty array, and the division of two Python
  integers by zero. Arithmetic on floats raises nothing: an overflow gives an infinity and
  an undefined result gives \<open>nan\<close>.
\<close>

datatype error = IndexError | ZeroDivisionError


subsection \<open>Binary64 values and rounding\<close>

datatype float64 = Finite real | PosInf | NegInf | NaN

text \<open>
  Rounding a non-negative real to an integer, a tie going to the even neighbour.
\<close>

definition round_half_even :: "real \<Rightarrow> int" where
  "round_half_even q =
     (let f = \<lfloor>q\<rfloor>; d = q - real_of_int f
      in if d < 1 / 2 then f else if 1 / 2 < d then f + 1 else if even f then f else f + 1)"

text \<open>
  The exponent of the binade of \<open>r\<close>: \<open>2 ^ e \<le> |r| < 2 ^ (e + 1)\<close>, and \<open>- 1022\<close> for
  the subnormal numbers below \<open>2 ^ - 1022\<close>. The values of the format in that binade are
  the multiples of \<open>2 ^ (e - 52)\<close>: 53 bits of significand.
\<close>

definition binade :: "real \<Rightarrow> int" where
  "binade r = max (- 1022) \<lfloor>log 2 \<bar>r\<bar>\<rfloor>"

definition ulp :: "real \<Rightarrow> real" where
  "ulp r = 2 powr real_of_int (binade r - 52)"

definition rnd :: "real \<Rightarrow> real" where
  "rnd r = sgn r * (real_of_int (round_half_even (\<bar>r\<bar> / ulp r)) * ulp r)"

text \<open>
  The float64 value of an exact result \<open>r\<close>: the rounded number, or an infinity when the
  rounded number is beyond the largest finite value (\<open>2 ^ 1024\<close> is the first such).
\<close>

definition fl64 :: "real \<Rightarrow> float64" where
  "fl64 r =
     (if 2 ^ 1024 \<le> \<bar>rnd r\<bar> then (if 0 < r then PosInf else NegInf) else Finite (rnd r))"

text \<open>A real number that is a finite value of the format.\<close>

definition is_float64 :: "real \<Rightarrow> bool" where
  "is_float64 r = (fl64 r = Finite r)"

subsection \<open>Arithmetic on float64\<close>

fun fneg :: "float64 \<Rightarrow> float64" where
  "fneg (Finite u) = Finite (- u)"
| "fneg PosInf = NegInf"
| "fneg NegInf = PosInf"
| "fneg NaN = NaN"

fun fadd :: "float64 \<Rightarrow> float64 \<Rightarrow> float64" where
  "fadd (Finite u) (Finite v) = fl64 (u + v)"
| "fadd NaN _ = NaN"
| "fadd _ NaN = NaN"
| "fadd PosInf NegInf = NaN"
| "fadd NegInf PosInf = NaN"
| "fadd PosInf _ = PosInf"
| "fadd _ PosInf = PosInf"
| "fadd NegInf _ = NegInf"
| "fadd _ NegInf = NegInf"

definition fsub :: "float64 \<Rightarrow> float64 \<Rightarrow> float64" where
  "fsub u v = fadd u (fneg v)"

text \<open>
  The product with an infinity: \<open>nan\<close> when the other factor is zero, else the infinity
  of the product's sign.
\<close>

fun fmul :: "float64 \<Rightarrow> float64 \<Rightarrow> float64" where
  "fmul (Finite u) (Finite v) = fl64 (u * v)"
| "fmul NaN _ = NaN"
| "fmul _ NaN = NaN"
| "fmul PosInf (Finite v) = (if v = 0 then NaN else if 0 < v then PosInf else NegInf)"
| "fmul NegInf (Finite v) = (if v = 0 then NaN else if 0 < v then NegInf else PosInf)"
| "fmul (Finite u) PosInf = (if u = 0 then NaN else if 0 < u then PosInf else NegInf)"
| "fmul (Finite u) NegInf = (if u = 0 then NaN else if 0 < u then NegInf else PosInf)"
| "fmul PosInf PosInf = PosInf"
| "fmul PosInf NegInf = NegInf"
| "fmul NegInf PosInf = NegInf"
| "fmul NegInf NegInf = PosInf"

text \<open>
  The quotient of numpy float64 values; a division by zero raises nothing and gives an
  infinity (or \<open>nan\<close> for \<open>0 / 0\<close>).
\<close>

fun fdiv :: "float64 \<Rightarrow> float64 \<Rightarrow> float64" where
  "fdiv (Finite u) (Finite v) =
     (if v = 0 then (if u = 0 then NaN else if 0 < u then PosInf else NegInf)
      else fl64 (u / v))"
| "fdiv NaN _ = NaN"
| "fdiv _ NaN = NaN"
| "fdiv (Finite u) PosInf = Finite 0"
| "fdiv (Finite u) NegInf = Finite 0"
| "fdiv PosInf (Finite v) = (if 0 \<le> v then PosInf else NegInf)"
| "fdiv NegInf (Finite v) = (if 0 \<le> v then NegInf else PosInf)"
| "fdiv PosInf PosInf = NaN"
| "fdiv PosInf NegInf = NaN"
| "fdiv NegInf PosInf = NaN"
| "fdiv NegInf NegInf = NaN"

text \<open>
  \<open>np.exp\<close> and \<open>np.log\<close>, taken as correctly rounded. Neither raises: \<open>np.log\<close>
  returns \<open>-inf\<close> at 0 and \<open>nan\<close> below 0 (with a warning).
\<close>

fun np_exp :: "float64 \<Rightarrow> float64" where
  "np_exp (Finite u) = fl64 (exp u)"
| "np_exp PosInf = PosInf"
| "np_exp NegInf = Finite 0"
| "np_exp NaN = NaN"

fun np_log :: "float64 \<Rightarrow> float64" where
  "np_log (Finite u) = (if 0 < u then fl64 (ln u) else if u = 0 then NegInf else NaN)"
| "np_log PosInf = PosInf"
| "np_log NegInf = NaN"
| "np_log NaN = NaN"

text \<open>The comparison \<open><=\<close> of two floats: false when an operand is \<open>nan\<close>.\<close>

fun fle :: "float64 \<Rightarrow> float64 \<Rightarrow> bool" where
  "fle NaN _ = False"
| "fle _ NaN = False"
| "fle NegInf _ = True"
| "fle _ PosInf = True"
| "fle (Finite u) (Finite v) = (u \<le> v)"
| "fle _ _ = False"

subsection \<open>Probability of a correct answer\<close>

text \<open>
  An item \<open>(a, b, c)\<close>; the parameters, and theta, are finite floats.
\<close>

type_synonym item = "real \<times> real \<times> real"

text \<open>The literal \<open>1.7\<close>: the float64 value nearest to 17/10.\<close>

definition fator_escala :: float64 where
  "fator_escala = fl64 (17 / 10)"

definition probabilidade_acerto :: "real \<Rightarrow> real \<Rightarrow> real \<Rightarrow> real \<Rightarrow> float64" where
  "probabilidade_acerto theta a b c =
     (let expoente = fmul (fmul (fneg fator_escala) (Finite a)) (fsub (Finite theta) (Finite b));
          prob = fadd (Finite c)
                   (fmul (fsub (Finite 1) (Finite c))
                      (fdiv (Finite 1) (fadd (Finite 1) (np_exp expoente))))
      in prob)"

subsection \<open>Negative log-likelihood\<close>

text \<open>The literal \<open>1e-9\<close>.\<close>

definition epsilon :: float64 where
  "epsilon = fl64 (1 / 10 ^ 9)"

text \<open>
  The body of the \<open>for i, resposta in enumerate(respostas)\<close> loop, with the
  accumulator \<open>log_likelihood\<close> as an argument. \<open>parametros_itens[i]\<close> raises
  IndexError when there is no item at index \<open>i\<close>.
\<close>

fun log_verossimilhanca_loop ::
  "real \<Rightarrow> item list \<Rightarrow> (nat \<times> int) list \<Rightarrow> float64 \<Rightarrow> error + float64" where
  "log_verossimilhanca_loop theta parametros_itens [] log_likelihood = Inr log_likelihood"
| "log_verossimilhanca_loop theta parametros_itens ((i, resposta) # rest) log_likelihood =
     (if i < length parametros_itens then
        (case parametros_itens ! i of (a, b, c) \<Rightarrow>
           let p = probabilidade_acerto theta a b c in
           if resposta = 1
           then log_verossimilhanca_loop theta parametros_itens rest
                  (fadd log_likelihood (np_log (fadd p epsilon)))
           else log_verossimilhanca_loop theta parametros_itens rest
                  (fadd log_likelihood (np_log (fadd (fsub (Finite 1) p) epsilon))))
      else Inl IndexError)"

definition log_verossimilhanca :: "real \<Rightarrow> int list \<Rightarrow> item list \<Rightarrow> error + float64" where
  "log_verossimilhanca theta respostas parametros_itens =
     (case log_verossimilhanca_loop theta parametros_itens (enumerate 0 respostas) (Finite 0) of
        Inl e \<Rightarrow> Inl e
      | Inr log_likelihood \<Rightarrow> Inr (fneg log_likelihood))"

subsection \<open>The estimator\<close>

text \<open>
  The fields of scipy's \<open>OptimizeResult\<close> that the engine reads.
\<close>

record optimize_result =
  success :: bool
  x :: "real list"
  message :: string

text \<open>
  \<open>scipy.optimize.minimize\<close> is a library routine, taken as a parameter: it receives
  the objective (already applied to \<open>args\<close>), the starting point, the name of the
  method and the bounds, and returns its result or lets an exception escape.
\<close>

type_synonym minimizer =
  "(real \<Rightarrow> error + float64) \<Rightarrow> real \<Rightarrow> string \<Rightarrow> (real \<times> real) list \<Rightarrow> error + optimize_result"

text \<open>
  What a call can change outside its return value: the lines printed on standard output,
  and (to observe it) the number of calls of the optimizer made so far.
\<close>

record world =
  stdout :: "string list"
  minimize_calls :: nat

text \<open>
  The two messages of \<open>estimar_proficiencia\<close>; the letters outside ASCII are given by
  their code points.
\<close>

definition msg_padrao_extremo :: string where
  "msg_padrao_extremo =
     ''Padr'' @ [CHR 0xE3] @ ''o de resposta extremo (todos acertos ou todos erros). N''
     @ [CHR 0xE3] @ ''o '' @ [CHR 0xE9] @ '' poss'' @ [CHR 0xED]
     @ ''vel estimar um theta '' @ [CHR 0xFA] @ ''nico.''"

definition msg_falhou :: "string \<Rightarrow> string" where
  "msg_falhou m =
     ''Otimiza'' @ [CHR 0xE7, CHR 0xE3] @ ''o falhou em convergir: '' @ m"

definition print :: "string \<Rightarrow> world \<Rightarrow> world" where
  "print s w = w\<lparr>stdout := stdout w @ [s]\<rparr>"

definition estimar_proficiencia ::
  "minimizer \<Rightarrow> int list \<Rightarrow> item list \<Rightarrow> world \<Rightarrow> (error + real option) \<times> world" where
  "estimar_proficiencia minimize respostas parametros_itens w =
     (if list_all (\<lambda>r. r = 1) respostas \<or> list_all (\<lambda>r. r = 0) respostas
      then (Inr None, print msg_padrao_extremo w)
      else
        let theta_inicial = 0;
            w1 = w\<lparr>minimize_calls := Suc (minimize_calls w)\<rparr>
        in case minimize (\<lambda>theta. log_verossimilhanca theta respostas parametros_itens)
                  theta_inicial ''L-BFGS-B'' [(- 4, 4)] of
             Inl e \<Rightarrow> (Inl e, w1)
           | Inr resultado \<Rightarrow>
               if success resultado
               then (case x resultado of
                       [] \<Rightarrow> (Inl IndexError, w1)
                     | x0 # _ \<Rightarrow> (Inr (Some x0), w1))
               else (Inr None, print (msg_falhou (message resultado)) w1))"

subsection \<open>The score\<close>


subsection \<open>Stand-ins for the optimizer\<close>

text \<open>
  Two optimizers to run the estimator on concrete inputs: one reports convergence at a
  given point, the other reports non-convergence with a given diagnostic.
\<close>

definition minimize_converge :: "real \<Rightarrow> minimizer" where
  "minimize_converge t objetivo x0 method bounds =
     Inr \<lparr>success = True, x = [t], message = ''CONVERGENCE''\<rparr>"

definition minimize_sem_convergencia :: "string \<Rightarrow> minimizer" where
  "minimize_sem_convergencia m objetivo x0 method bounds =
     Inr \<lparr>success = False, x = [x0], message = m\<rparr>"

definition w0 :: world where
  "w0 = \<lparr>stdout = [], minimize_calls = 0\<rparr>"

text \<open>The validity invariants of an item: \<open>a > 0\<close> and \<open>0 \<le> c < 1\<close>.\<close>

fun item_valido :: "item \<Rightarrow> bool" where
  "item_valido (a, b, c) = (0 < a \<and> 0 \<le> c \<and> c < 1)"

section \<open>Properties\<close>

subsection \<open>Rounding to float64\<close>

lemma rhe_of_int: "round_half_even (real_of_int k) = k"
  by (simp add: round_half_even_def)

lemma rhe_lower: "\<lfloor>q\<rfloor> \<le> round_half_even q"
  by (simp add: round_half_even_def Let_def)

lemma rhe_upper: "round_half_even q \<le> \<lfloor>q\<rfloor> + 1"
  by (simp add: round_half_even_def Let_def)

lemma rhe_mono:
  assumes "q1 \<le> q2"
  shows "round_half_even q1 \<le> round_half_even q2"
proof (cases "\<lfloor>q1\<rfloor> = \<lfloor>q2\<rfloor>")
  case True
  then show ?thesis using assms
    by (auto simp: round_half_even_def Let_def)
next
  case False
  then have "\<lfloor>q1\<rfloor> + 1 \<le> \<lfloor>q2\<rfloor>"
    using assms floor_mono [of q1 q2] by linarith
  then show ?thesis
    using rhe_upper [of q1] rhe_lower [of q2] by linarith
qed

lemma ulp_pos: "0 < ulp r"
  by (simp add: ulp_def)

lemma binade_abs: "binade (- r) = binade r" and ulp_neg: "ulp (- r) = ulp r"
  by (simp_all add: binade_def ulp_def)

lemma rnd_zero: "rnd 0 = 0"
  by (simp add: rnd_def)

lemma rnd_neg: "rnd (- r) = - rnd r"
  by (simp add: rnd_def ulp_neg sgn_minus)

lemma floor_log2_bounds:
  assumes "0 < r"
  shows "2 powr real_of_int \<lfloor>log 2 r\<rfloor> \<le> r" and "r < 2 powr real_of_int (\<lfloor>log 2 r\<rfloor> + 1)"
  using assms floor_log_eq_powr_iff [of r 2 "\<lfloor>log 2 r\<rfloor>"] by simp_all

lemma binade_lower: "- 1022 \<le> binade r"
  by (simp add: binade_def)

lemma binade_upper_bound:
  assumes "0 < r"
  shows "r < 2 powr real_of_int (binade r + 1)"
proof -
  have "r < 2 powr real_of_int (\<lfloor>log 2 r\<rfloor> + 1)" using assms by (rule floor_log2_bounds)
  also have "\<dots> \<le> 2 powr real_of_int (binade r + 1)"
    using assms by (simp add: binade_def)
  finally show ?thesis .
qed

lemma binade_mono:
  assumes "0 < r" and "r \<le> s"
  shows "binade r \<le> binade s"
proof -
  have "log 2 r \<le> log 2 s" using assms by simp
  then have "\<lfloor>log 2 r\<rfloor> \<le> \<lfloor>log 2 s\<rfloor>" by (rule floor_mono)
  then show ?thesis using assms by (simp add: binade_def)
qed

lemma rnd_pos_eq:
  assumes "0 < r"
  shows "rnd r = real_of_int (round_half_even (r / ulp r)) * ulp r"
  using assms by (simp add: rnd_def)

lemma rnd_nonneg:
  assumes "0 \<le> r"
  shows "0 \<le> rnd r"
proof (cases "r = 0")
  case True then show ?thesis by (simp add: rnd_zero)
next
  case False
  with assms have r: "0 < r" by simp
  have "0 \<le> r / ulp r" using r ulp_pos [of r] by simp
  then have "0 \<le> round_half_even (r / ulp r)"
    using rhe_mono [of 0 "r / ulp r"] rhe_of_int [of 0] by simp
  then show ?thesis using r ulp_pos [of r] by (simp add: rnd_pos_eq)
qed

lemma ulp_times_52: "2 powr 52 * ulp r = 2 powr real_of_int (binade r)"
proof -
  have "2 powr 52 * 2 powr (real_of_int (binade r) - 52)
          = 2 powr (52 + (real_of_int (binade r) - 52))"
    by (rule powr_add [symmetric])
  then show ?thesis by (simp add: ulp_def)
qed

lemma ulp_times_53: "2 powr 53 * ulp r = 2 powr real_of_int (binade r + 1)"
proof -
  have "2 powr 53 * 2 powr (real_of_int (binade r) - 52)
          = 2 powr (53 + (real_of_int (binade r) - 52))"
    by (rule powr_add [symmetric])
  then show ?thesis by (simp add: ulp_def add.commute)
qed

lemma rnd_le_next_binade:
  assumes "0 < r"
  shows "rnd r \<le> 2 powr real_of_int (binade r + 1)"
proof -
  have u: "0 < ulp r" by (rule ulp_pos)
  have "r / ulp r \<le> 2 powr real_of_int (binade r + 1) / ulp r"
    using binade_upper_bound [OF assms] u by (simp add: divide_right_mono less_imp_le)
  also have "2 powr real_of_int (binade r + 1) / ulp r = 2 powr 53"
    using ulp_times_53 [of r] u by (simp add: field_simps)
  also have "(2::real) powr 53 = real_of_int (2 ^ 53)" by simp
  finally have "round_half_even (r / ulp r) \<le> 2 ^ 53"
    using rhe_mono [of "r / ulp r" "real_of_int (2 ^ 53)"] rhe_of_int [of "2 ^ 53"] by simp
  then have "real_of_int (round_half_even (r / ulp r)) \<le> 2 powr 53"
    by (metis \<open>(2::real) powr 53 = real_of_int (2 ^ 53)\<close> of_int_le_iff)
  then have "rnd r \<le> 2 powr 53 * ulp r"
    using u assms by (simp add: rnd_pos_eq)
  also have "2 powr 53 * ulp r = 2 powr real_of_int (binade r + 1)"
    by (rule ulp_times_53)
  finally show ?thesis .
qed

lemma rnd_ge_binade:
  assumes "0 < r" and "- 1022 \<le> \<lfloor>log 2 r\<rfloor>"
  shows "2 powr real_of_int (binade r) \<le> rnd r"
proof -
  have u: "0 < ulp r" by (rule ulp_pos)
  have b: "binade r = \<lfloor>log 2 r\<rfloor>" using assms by (simp add: binade_def)
  have "2 powr real_of_int (binade r) \<le> r" using floor_log2_bounds(1) [OF assms(1)] b by simp
  then have "2 powr real_of_int (binade r) / ulp r \<le> r / ulp r"
    using u by (simp add: divide_right_mono)
  moreover have "2 powr real_of_int (binade r) / ulp r = 2 powr 52"
    using ulp_times_52 [of r] u by (simp add: field_simps)
  moreover have "(2::real) powr 52 = real_of_int (2 ^ 52)" by simp
  ultimately have "2 ^ 52 \<le> round_half_even (r / ulp r)"
    using rhe_mono [of "real_of_int (2 ^ 52)" "r / ulp r"] rhe_of_int [of "2 ^ 52"] by simp
  then have "2 powr 52 \<le> real_of_int (round_half_even (r / ulp r))"
    by (metis \<open>(2::real) powr 52 = real_of_int (2 ^ 52)\<close> of_int_le_iff)
  then have "2 powr 52 * ulp r \<le> rnd r"
    using u assms by (simp add: rnd_pos_eq)
  moreover have "2 powr 52 * ulp r = 2 powr real_of_int (binade r)"
    by (rule ulp_times_52)
  ultimately show ?thesis by simp
qed

lemma rnd_mono_pos:
  assumes "0 < r" and "r \<le> s"
  shows "rnd r \<le> rnd s"
proof (cases "binade r = binade s")
  case True
  then have u: "ulp r = ulp s" by (simp add: ulp_def)
  have "r / ulp s \<le> s / ulp s" using assms ulp_pos [of s] by (simp add: divide_right_mono)
  then have "round_half_even (r / ulp s) \<le> round_half_even (s / ulp s)" by (rule rhe_mono)
  then show ?thesis using assms u ulp_pos [of s] by (simp add: rnd_pos_eq)
next
  case False
  with binade_mono [OF assms] have lt: "binade r < binade s" by simp
  have s: "0 < s" using assms by simp
  have "- 1022 < binade s" using lt binade_lower [of r] by linarith
  then have fl: "- 1022 \<le> \<lfloor>log 2 s\<rfloor>" using s by (simp add: binade_def max_def split: if_splits)
  have "rnd r \<le> 2 powr real_of_int (binade r + 1)" by (rule rnd_le_next_binade [OF assms(1)])
  also have "\<dots> \<le> 2 powr real_of_int (binade s)" using lt by simp
  also have "\<dots> \<le> rnd s" by (rule rnd_ge_binade [OF s fl])
  finally show ?thesis .
qed

lemma rnd_mono:
  assumes "r \<le> s"
  shows "rnd r \<le> rnd s"
proof -
  consider "0 < r" | "r \<le> 0" "0 \<le> s" | "s < 0" by linarith
  then show ?thesis
  proof cases
    case 1
    then show ?thesis using assms by (rule rnd_mono_pos)
  next
    case 2
    have "rnd r \<le> 0" using rnd_nonneg [of "- r"] 2 by (simp add: rnd_neg)
    moreover have "0 \<le> rnd s" using 2 by (simp add: rnd_nonneg)
    ultimately show ?thesis by simp
  next
    case 3
    have "rnd (- s) \<le> rnd (- r)" using 3 assms by (intro rnd_mono_pos) simp_all
    then show ?thesis by (simp add: rnd_neg)
  qed
qed


lemma rnd_representable_pos:
  assumes r: "r = real_of_int m * 2 powr real_of_int e"
    and m: "0 < m" "m < 2 ^ 53" and e: "- 1074 \<le> e"
  shows "rnd r = r"
proof -
  have rpos: "0 < r" using r m by simp
  have "r < real_of_int (2 ^ 53) * 2 powr real_of_int e"
    unfolding r using m by (intro mult_strict_right_mono) simp_all
  also have "\<dots> = 2 powr real_of_int (53 + e)" by (simp add: powr_add)
  finally have "log 2 r < real_of_int (53 + e)"
    using rpos by (simp add: log_less_iff)
  then have "\<lfloor>log 2 r\<rfloor> < 53 + e" by (simp add: floor_less_iff)
  then have E: "binade r \<le> e + 52" using e rpos by (simp add: binade_def)
  define k where "k = nat (e + 52 - binade r)"
  have k: "real_of_int e = real_of_int (binade r - 52) + real k"
    using E by (simp add: k_def)
  have "2 powr real_of_int e = ulp r * 2 powr real k"
    unfolding k ulp_def by (rule powr_add)
  also have "2 powr real k = 2 ^ k" by (simp add: powr_realpow)
  finally have pe: "2 powr real_of_int e = ulp r * 2 ^ k" .
  have "r = real_of_int m * 2 powr real_of_int e" by (rule r)
  also have "\<dots> = real_of_int m * (ulp r * 2 ^ k)" by (simp only: pe)
  also have "\<dots> = real_of_int (m * 2 ^ k) * ulp r" by simp
  finally have re: "r = real_of_int (m * 2 ^ k) * ulp r" .
  have "r / ulp r = real_of_int (m * 2 ^ k) * ulp r / ulp r" using re by simp
  also have "\<dots> = real_of_int (m * 2 ^ k)" using ulp_pos [of r] by simp
  finally have "round_half_even (r / ulp r) = m * 2 ^ k" by (simp only: rhe_of_int)
  then have "rnd r = real_of_int (m * 2 ^ k) * ulp r" using rpos by (simp only: rnd_pos_eq)
  then show ?thesis using re by simp
qed

lemma rnd_representable:
  assumes r: "r = real_of_int m * 2 powr real_of_int e"
    and m: "\<bar>m\<bar> < 2 ^ 53" and e: "- 1074 \<le> e"
  shows "rnd r = r"
proof -
  consider "m = 0" | "0 < m" | "m < 0" by linarith
  then show ?thesis
  proof cases
    case 1 then show ?thesis using r by (simp add: rnd_zero)
  next
    case 2 then show ?thesis using rnd_representable_pos [OF r _ _ e] m by simp
  next
    case 3
    have "- r = real_of_int (- m) * 2 powr real_of_int e" using r by simp
    from rnd_representable_pos [OF this _ _ e] 3 m have "rnd (- r) = - r" by simp
    then show ?thesis by (simp add: rnd_neg)
  qed
qed

lemma rnd_pow2: "- 1074 \<le> e \<Longrightarrow> rnd (2 powr real_of_int e) = 2 powr real_of_int e"
  using rnd_representable [of "2 powr real_of_int e" 1 e] by simp

lemma is_float64_iff: "is_float64 r \<longleftrightarrow> rnd r = r \<and> \<bar>r\<bar> < 2 ^ 1024"
  by (auto simp: is_float64_def fl64_def)

lemma is_float64I:
  assumes r: "r = real_of_int m * 2 powr real_of_int e"
    and m: "\<bar>m\<bar> < 2 ^ 53" and e: "- 1074 \<le> e" "e \<le> 971"
  shows "is_float64 r"
proof -
  have "\<bar>r\<bar> = real_of_int \<bar>m\<bar> * 2 powr real_of_int e" using r by (simp add: abs_mult)
  also have "\<dots> \<le> real_of_int \<bar>m\<bar> * 2 powr real_of_int 971"
    using e by (intro mult_left_mono powr_mono) simp_all
  also have "\<dots> < real_of_int (2 ^ 53) * 2 powr real_of_int 971"
    using m by (intro mult_strict_right_mono) simp_all
  also have "\<dots> = 2 ^ 1024" by simp
  finally have "\<bar>r\<bar> < 2 ^ 1024" .
  then show ?thesis using rnd_representable [OF r m e(1)] by (simp add: is_float64_iff)
qed

lemma fl64_between:
  assumes "lo \<le> r" and "r \<le> hi" and "is_float64 lo" and "is_float64 hi"
  shows "fl64 r = Finite (rnd r)" and "lo \<le> rnd r" and "rnd r \<le> hi"
proof -
  from assms(3,4) have lo: "rnd lo = lo" "\<bar>lo\<bar> < 2 ^ 1024" and hi: "rnd hi = hi" "\<bar>hi\<bar> < 2 ^ 1024"
    by (simp_all add: is_float64_iff)
  show l: "lo \<le> rnd r" using rnd_mono [OF assms(1)] lo by simp
  show h: "rnd r \<le> hi" using rnd_mono [OF assms(2)] hi by simp
  from l h lo hi have "\<bar>rnd r\<bar> < 2 ^ 1024" by linarith
  then show "fl64 r = Finite (rnd r)" by (simp add: fl64_def)
qed

lemma fl64_float: "is_float64 r \<Longrightarrow> fl64 r = Finite r"
  by (simp add: is_float64_def)

lemma fl64_overflow_pos:
  assumes "2 ^ 1024 \<le> r"
  shows "fl64 r = PosInf"
proof -
  have "(2::real) ^ 1024 = 2 powr real_of_int 1024" by simp
  then have "rnd (2 ^ 1024) = 2 ^ 1024" using rnd_pow2 [of 1024] by simp
  then have "2 ^ 1024 \<le> rnd r" using rnd_mono [OF assms] by simp
  moreover have "0 < r" using assms by (smt (verit) zero_less_power)
  ultimately show ?thesis by (simp add: fl64_def)
qed

lemma fl64_overflow_neg:
  assumes "r \<le> - (2 ^ 1024)"
  shows "fl64 r = NegInf"
proof -
  have "(2::real) ^ 1024 = 2 powr real_of_int 1024" by simp
  then have "rnd (2 ^ 1024) = 2 ^ 1024" using rnd_pow2 [of 1024] by simp
  then have "rnd (- (2 ^ 1024)) = - (2 ^ 1024)" by (simp only: rnd_neg)
  then have "rnd r \<le> - (2 ^ 1024)" using rnd_mono [OF assms] by simp
  moreover have "r < 0" using assms by (smt (verit) zero_less_power)
  ultimately show ?thesis by (simp add: fl64_def)
qed

lemma is_float64_0: "is_float64 0"
  by (simp add: is_float64_iff rnd_zero)

lemma is_float64_1: "is_float64 1"
  using is_float64I [of 1 1 0] by simp

lemma is_float64_2: "is_float64 2"
  using is_float64I [of 2 1 1] by simp

lemma is_float64_half: "is_float64 (1 / 2)"
  using is_float64I [of "1 / 2" 1 "- 1"] by (simp add: powr_minus_divide)

lemma is_float64_int:
  assumes "\<bar>m\<bar> < 2 ^ 53"
  shows "is_float64 (real_of_int m)"
  using is_float64I [of "real_of_int m" m 0] assms by simp

subsection \<open>Values and operations at particular numbers\<close>

lemma is_float64_13_8: "is_float64 (13 / 8)"
  using is_float64I [of "13 / 8" 13 "- 3"] by (simp add: powr_minus_divide)

lemma is_float64_7_4: "is_float64 (7 / 4)"
  using is_float64I [of "7 / 4" 7 "- 2"] by (simp add: powr_minus_divide)

lemma fator_escala_bounds:
  obtains f where "fator_escala = Finite f" and "13 / 8 \<le> f" and "f \<le> 7 / 4"
proof -
  have "(13::real) / 8 \<le> 17 / 10" "(17::real) / 10 \<le> 7 / 4" by simp_all
  from fl64_between [OF this is_float64_13_8 is_float64_7_4] show ?thesis
    using that by (simp add: fator_escala_def)
qed

lemma fl64_0: "fl64 0 = Finite 0"
  by (rule fl64_float [OF is_float64_0])
lemma fl64_1: "fl64 1 = Finite 1"
  by (rule fl64_float [OF is_float64_1])
lemma fl64_2: "fl64 2 = Finite 2"
  by (rule fl64_float [OF is_float64_2])
lemma fl64_half: "fl64 (1 / 2) = Finite (1 / 2)"
  by (rule fl64_float [OF is_float64_half])

lemma fadd_NaN_right: "fadd u NaN = NaN"
  by (cases u) simp_all
lemma fmul_NaN_right: "fmul u NaN = NaN"
  by (cases u) simp_all
lemma fdiv_NaN_right: "fdiv u NaN = NaN"
  by (cases u) simp_all

lemma fsub_self: "fsub (Finite b) (Finite b) = Finite 0"
  using fl64_float [OF is_float64_0] by (simp add: fsub_def)

lemma fmul_zero_right: "fmul (Finite m) (Finite 0) = Finite 0"
  using fl64_float [OF is_float64_0] by simp

lemma np_exp_zero: "np_exp (Finite 0) = Finite 1"
  using fl64_float [OF is_float64_1] by simp

lemma fadd_one_one: "fadd (Finite 1) (Finite 1) = Finite 2"
  using fl64_float [OF is_float64_2] by simp

lemma fdiv_one_two: "fdiv (Finite 1) (Finite 2) = Finite (1 / 2)"
  using fl64_float [OF is_float64_half] by simp

lemma fmul_half: "fmul u (Finite (1 / 2)) = fdiv u (Finite 2)"
  by (cases u) simp_all

lemma fator_times_one:
  obtains m where "fmul (fneg fator_escala) (Finite 1) = Finite m"
proof -
  obtain f where f: "fator_escala = Finite f" "13 / 8 \<le> f" "f \<le> 7 / 4"
    by (rule fator_escala_bounds)
  have "- 2 \<le> - f * 1" "- f * 1 \<le> 0" using f by simp_all
  from fl64_between(1) [OF this] have "fl64 (- f * 1) = Finite (rnd (- f * 1))"
    using is_float64_2 is_float64_0 by (simp add: is_float64_iff rnd_neg)
  then have "fmul (fneg fator_escala) (Finite 1) = Finite (rnd (- f * 1))"
    by (simp add: f(1))
  then show ?thesis by (rule that)
qed

lemma is_float64_5_8: "is_float64 (5 / 8)"
  using is_float64I [of "5 / 8" 5 "- 3"] by (simp add: powr_minus_divide)
lemma is_float64_3_4: "is_float64 (3 / 4)"
  using is_float64I [of "3 / 4" 3 "- 2"] by (simp add: powr_minus_divide)
lemma is_float64_3_8: "is_float64 (3 / 8)"
  using is_float64I [of "3 / 8" 3 "- 3"] by (simp add: powr_minus_divide)
lemma is_float64_1_4: "is_float64 (1 / 4)"
  using is_float64I [of "1 / 4" 1 "- 2"] by (simp add: powr_minus_divide)

lemma midpoint_quarter:
  "fadd (Finite (1 / 4)) (fdiv (fsub (Finite 1) (Finite (1 / 4))) (Finite 2)) = Finite (5 / 8)"
  using fl64_float [OF is_float64_3_4] fl64_float [OF is_float64_3_8] fl64_float [OF is_float64_5_8]
  by (simp add: fsub_def)

lemma is_float64_big: "is_float64 (3 * 2 ^ 1022)"
  using is_float64I [of "3 * 2 ^ 1022" "3 * 2 ^ 51" 971] by simp

lemma fator_times_big: "fmul (fneg fator_escala) (Finite (3 * 2 ^ 1022)) = NegInf"
proof -
  obtain f where f: "fator_escala = Finite f" "13 / 8 \<le> f" "f \<le> 7 / 4"
    by (rule fator_escala_bounds)
  have "f * (3 * 2 ^ 1022) \<ge> 13 / 8 * (3 * 2 ^ 1022)"
    using f by (intro mult_right_mono) simp_all
  then have "- f * (3 * 2 ^ 1022) \<le> - (2 ^ 1024)" by simp
  then have "fl64 (- f * (3 * 2 ^ 1022)) = NegInf" by (rule fl64_overflow_neg)
  then show ?thesis by (simp add: f(1))
qed


subsection \<open>Saturation, monotonicity and rounding error\<close>

lemma exp_39: "exp (- 39 :: real) \<le> 1 / 2 ^ 53"
proof -
  have "(2::real) \<le> 1 + 39 / 53 + (39 / 53)\<^sup>2 / 2" by (simp add: power2_eq_square)
  also have "\<dots> \<le> exp (39 / 53)" by (rule exp_lower_Taylor_quadratic) simp
  finally have "(2::real) ^ 53 \<le> exp (39 / 53) ^ 53" by (rule power_mono) simp
  also have "\<dots> = exp (of_nat 53 * (39 / 53))" by (rule exp_of_nat_mult [symmetric])
  also have "\<dots> = exp (39::real)" by simp
  finally have "1 / exp (39::real) \<le> 1 / 2 ^ 53"
    by (intro divide_left_mono) simp_all
  then show ?thesis by (simp add: exp_minus')
qed

lemma rnd_tie_one: "rnd (1 + 1 / 2 ^ 53) = 1"
proof -
  define r :: real where "r = 1 + 1 / 2 ^ 53"
  have "\<lfloor>log 2 r\<rfloor> = 0"
    by (subst floor_log_eq_powr_iff) (simp_all add: r_def)
  then have b: "binade r = 0" by (simp add: binade_def r_def)
  have u: "ulp r = 1 / 2 ^ 52" by (simp add: ulp_def b powr_minus_divide)
  have rpos: "0 < r" by (simp add: r_def)
  have "r / ulp r = r * 2 ^ 52" unfolding u by simp
  also have "\<dots> = 2 ^ 52 + 1 / 2" by (simp add: r_def)
  finally have q: "r / ulp r = 2 ^ 52 + 1 / 2" .
  have "\<lfloor>(2::real) ^ 52 + 1 / 2\<rfloor> = 2 ^ 52" by (simp add: floor_eq_iff)
  then have "round_half_even (r / ulp r) = 2 ^ 52"
    unfolding q by (simp add: round_half_even_def Let_def)
  then have "rnd r = real_of_int (2 ^ 52) * ulp r" using rpos by (simp only: rnd_pos_eq)
  also have "\<dots> = 1" unfolding u by simp
  finally show ?thesis by (simp only: r_def)
qed

lemma rnd_near_one:
  assumes "1 \<le> r" and "r \<le> 1 + 1 / 2 ^ 53"
  shows "rnd r = 1"
proof -
  have "rnd 1 = 1" using is_float64_1 by (simp add: is_float64_iff)
  then have "1 \<le> rnd r" using rnd_mono [OF assms(1)] by simp
  moreover have "rnd r \<le> 1" using rnd_mono [OF assms(2)] by (simp only: rnd_tie_one)
  ultimately show ?thesis by simp
qed

lemma fl64_near_one:
  assumes "1 \<le> r" and "r \<le> 1 + 1 / 2 ^ 53"
  shows "fl64 r = Finite 1"
  using rnd_near_one [OF assms] by (simp add: fl64_def)

lemma is_float64_2m53: "is_float64 (1 / 2 ^ 53)"
  using is_float64I [of "1 / 2 ^ 53" 1 "- 53"] by (simp add: powr_minus_divide)

lemma exp_saturates:
  assumes "h \<le> - 39"
  shows "fadd (Finite 1) (np_exp (Finite h)) = Finite 1"
proof -
  have "exp h \<le> exp (- 39)" using assms by simp
  then have hi: "exp h \<le> 1 / 2 ^ 53" using exp_39 by linarith
  have lo: "0 \<le> exp h" by simp
  from fl64_between [OF lo hi is_float64_0 is_float64_2m53]
  have e: "fl64 (exp h) = Finite (rnd (exp h))" "0 \<le> rnd (exp h)" "rnd (exp h) \<le> 1 / 2 ^ 53"
    by simp_all
  have "fl64 (1 + rnd (exp h)) = Finite 1"
    using e(2,3) by (intro fl64_near_one) simp_all
  then show ?thesis by (simp add: e(1))
qed

lemma is_float64_21_2: "is_float64 (- (21 / 2))"
  using is_float64I [of "- (21 / 2)" "- 21" "- 1"] by (simp add: powr_minus_divide)

lemma is_float64_39_4: "is_float64 (- (39 / 4))"
  using is_float64I [of "- (39 / 4)" "- 39" "- 2"] by (simp add: powr_minus_divide)

lemma fator_times_six:
  obtains g where "fmul (fneg fator_escala) (Finite 6) = Finite g"
    and "- (21 / 2) \<le> g" and "g \<le> - (39 / 4)"
proof -
  obtain f where f: "fator_escala = Finite f" "13 / 8 \<le> f" "f \<le> 7 / 4"
    by (rule fator_escala_bounds)
  have "- (21 / 2) \<le> - f * 6" "- f * 6 \<le> - (39 / 4)" using f by simp_all
  from fl64_between [OF this is_float64_21_2 is_float64_39_4]
  have "fl64 (- f * 6) = Finite (rnd (- f * 6))" "- (21 / 2) \<le> rnd (- f * 6)"
    "rnd (- f * 6) \<le> - (39 / 4)" by simp_all
  moreover have "fmul (fneg fator_escala) (Finite 6) = fl64 (- f * 6)" by (simp add: f(1))
  ultimately show ?thesis using that by simp
qed

lemma expoente_low:
  assumes "4 \<le> theta" and "theta \<le> 8" and "is_float64 theta"
  obtains h where
    "fmul (fmul (fneg fator_escala) (Finite 6)) (fsub (Finite theta) (Finite 0)) = Finite h"
    and "h \<le> - 39"
proof -
  obtain g where g: "fmul (fneg fator_escala) (Finite 6) = Finite g"
    "- (21 / 2) \<le> g" "g \<le> - (39 / 4)" by (rule fator_times_six)
  have d: "fsub (Finite theta) (Finite 0) = Finite theta"
    using fl64_float [OF assms(3)] by (simp add: fsub_def)
  have "g * theta \<le> - (39 / 4) * 4"
  proof -
    have "g * theta \<le> - (39 / 4) * theta" using g assms by (intro mult_right_mono) simp_all
    also have "\<dots> \<le> - (39 / 4) * 4" using assms by simp
    finally show ?thesis .
  qed
  then have hi: "g * theta \<le> - 39" by simp
  have "- (21 / 2) * 8 \<le> g * theta"
  proof -
    have "- (21 / 2) * 8 \<le> - (21 / 2) * theta" using assms by simp
    also have "\<dots> \<le> g * theta" using g assms by (intro mult_right_mono) simp_all
    finally show ?thesis .
  qed
  then have lo: "- 84 \<le> g * theta" by simp
  have "is_float64 (- 84)" "is_float64 (- 39)"
    using is_float64_int [of "- 84"] is_float64_int [of "- 39"] by simp_all
  from fl64_between [OF lo hi this]
  have "fl64 (g * theta) = Finite (rnd (g * theta))" "rnd (g * theta) \<le> - 39" by simp_all
  then show ?thesis using that by (simp add: g(1) d)
qed

lemma is_float64_4: "is_float64 4"
  using is_float64_int [of 4] by simp

lemma is_float64_5: "is_float64 5"
  using is_float64_int [of 5] by simp

lemma top_quarter:
  "fadd (Finite (1 / 4)) (fmul (fsub (Finite 1) (Finite (1 / 4))) (fdiv (Finite 1) (Finite 1)))
     = Finite 1"
  using fl64_float [OF is_float64_3_4] by (simp add: fsub_def fl64_1)

lemma fl64_not_NaN: "fl64 r \<noteq> NaN"
  by (simp add: fl64_def)

lemma fle_refl_iff: "fle u u \<longleftrightarrow> u \<noteq> NaN"
  by (cases u) simp_all

lemma fle_NegInf: "u \<noteq> NaN \<Longrightarrow> fle NegInf u"
  by (cases u) simp_all

lemma fle_PosInf: "u \<noteq> NaN \<Longrightarrow> fle u PosInf"
  by (cases u) simp_all

lemma fle_not_NaN: "fle u v \<Longrightarrow> u \<noteq> NaN \<and> v \<noteq> NaN"
  by (cases u; cases v) simp_all

lemma fl64_cases:
  obtains (fin) "fl64 r = Finite (rnd r)" "\<bar>rnd r\<bar> < 2 ^ 1024"
  | (pos) "fl64 r = PosInf" "2 ^ 1024 \<le> rnd r" "0 < r"
  | (neg) "fl64 r = NegInf" "rnd r \<le> - (2 ^ 1024)" "r \<le> 0"
proof (cases "2 ^ 1024 \<le> \<bar>rnd r\<bar>")
  case False
  then show ?thesis using fin by (simp add: fl64_def)
next
  case True
  show ?thesis
  proof (cases "0 < r")
    case p: True
    then have "0 \<le> rnd r" by (simp add: rnd_nonneg)
    then show ?thesis using True p pos by (simp add: fl64_def)
  next
    case n: False
    then have "0 \<le> rnd (- r)" by (intro rnd_nonneg) simp
    then have "rnd r \<le> 0" by (simp add: rnd_neg)
    then show ?thesis using True n neg by (simp add: fl64_def)
  qed
qed

lemma fl64_mono:
  assumes "r \<le> s"
  shows "fle (fl64 r) (fl64 s)"
proof -
  have m: "rnd r \<le> rnd s" using assms by (rule rnd_mono)
  show ?thesis
  proof (cases r rule: fl64_cases)
    case fin
    show ?thesis
    proof (cases s rule: fl64_cases)
      case fin': fin
      then show ?thesis using fin m by simp
    next
      case pos
      then show ?thesis using fin by simp
    next
      case neg
      then show ?thesis using fin m by simp
    qed
  next
    case pos
    then have "2 ^ 1024 \<le> rnd s" "0 < s" using m assms by simp_all
    then have "fl64 s = PosInf" by (simp add: fl64_def)
    then show ?thesis using pos by simp
  next
    case neg
    then show ?thesis by (simp add: fle_NegInf fl64_not_NaN)
  qed
qed

lemma fl64_nonneg:
  assumes "0 \<le> r"
  shows "fle (Finite 0) (fl64 r)"
  using fl64_mono [OF assms] by (simp add: fl64_0)

lemma rhe_error: "\<bar>real_of_int (round_half_even q) - q\<bar> \<le> 1 / 2"
proof -
  have "real_of_int \<lfloor>q\<rfloor> \<le> q" "q < real_of_int \<lfloor>q\<rfloor> + 1" by linarith+
  then show ?thesis by (auto simp: round_half_even_def Let_def)
qed

lemma rnd_error_pos:
  assumes "0 < r"
  shows "\<bar>rnd r - r\<bar> \<le> ulp r / 2"
proof -
  have u: "0 < ulp r" by (rule ulp_pos)
  have "rnd r - r = (real_of_int (round_half_even (r / ulp r)) - r / ulp r) * ulp r"
    using u assms by (simp add: rnd_pos_eq field_simps)
  then have "\<bar>rnd r - r\<bar> = \<bar>real_of_int (round_half_even (r / ulp r)) - r / ulp r\<bar> * ulp r"
    using u by (simp add: abs_mult)
  also have "\<dots> \<le> 1 / 2 * ulp r"
    using u rhe_error [of "r / ulp r"] by (intro mult_right_mono) simp_all
  finally show ?thesis by simp
qed

lemma ulp_small:
  assumes "0 < r" and "r \<le> 1"
  shows "ulp r \<le> 1 / 2 ^ 52"
proof -
  have "log 2 r \<le> 0" using assms by simp
  then have "\<lfloor>log 2 r\<rfloor> \<le> 0" by (simp add: floor_le_iff)
  then have "binade r \<le> 0" using assms by (simp add: binade_def)
  then have "2 powr real_of_int (binade r - 52) \<le> 2 powr real_of_int (- 52)"
    by (intro powr_mono) simp_all
  then show ?thesis by (simp add: ulp_def powr_minus_divide)
qed

lemma rhe_le_2_53:
  assumes "0 < r"
  shows "round_half_even (r / ulp r) \<le> 2 ^ 53"
proof -
  have u: "0 < ulp r" by (rule ulp_pos)
  have "r / ulp r \<le> 2 powr real_of_int (binade r + 1) / ulp r"
    using binade_upper_bound [OF assms] u by (simp add: divide_right_mono less_imp_le)
  also have "2 powr real_of_int (binade r + 1) / ulp r = 2 powr 53"
    using ulp_times_53 [of r] u by (simp add: field_simps)
  also have "(2::real) powr 53 = real_of_int (2 ^ 53)" by simp
  finally show ?thesis
    using rhe_mono [of "r / ulp r" "real_of_int (2 ^ 53)"] rhe_of_int [of "2 ^ 53"] by simp
qed

lemma rnd_idem_pos:
  assumes "0 < r"
  shows "rnd (rnd r) = rnd r"
proof -
  define k where "k = round_half_even (r / ulp r)"
  have k53: "k \<le> 2 ^ 53" unfolding k_def by (rule rhe_le_2_53 [OF assms])
  have "0 \<le> r / ulp r" using assms ulp_pos [of r] by simp
  then have k0: "0 \<le> k"
    unfolding k_def using rhe_mono [of 0 "r / ulp r"] rhe_of_int [of 0] by simp
  have r: "rnd r = real_of_int k * 2 powr real_of_int (binade r - 52)"
    using assms by (simp add: rnd_pos_eq k_def ulp_def)
  have e: "- 1074 \<le> binade r - 52" using binade_lower [of r] by simp
  show ?thesis
  proof (cases "k = 2 ^ 53")
    case False
    with k0 k53 have "\<bar>k\<bar> < 2 ^ 53" by simp
    from rnd_representable [OF r this e] show ?thesis .
  next
    case True
    have "rnd r = 2 powr 53 * ulp r" using r True by (simp add: ulp_def)
    then have "rnd r = 2 powr real_of_int (binade r + 1)" by (simp only: ulp_times_53)
    moreover have "- 1074 \<le> binade r + 1" using binade_lower [of r] by simp
    ultimately show ?thesis using rnd_pow2 [of "binade r + 1"] by simp
  qed
qed

lemma rnd_idem: "rnd (rnd r) = rnd r"
proof -
  consider "r = 0" | "0 < r" | "r < 0" by linarith
  then show ?thesis
  proof cases
    case 1 then show ?thesis by (simp add: rnd_zero)
  next
    case 2 then show ?thesis by (rule rnd_idem_pos)
  next
    case 3
    then have "rnd (rnd (- r)) = rnd (- r)" by (intro rnd_idem_pos) simp
    then show ?thesis by (simp add: rnd_neg)
  qed
qed

lemma float_pos_ge_min:
  assumes "is_float64 a" and "0 < a"
  shows "2 powr real_of_int (- 1074) \<le> a"
proof -
  have ra: "rnd a = a" using assms(1) by (simp add: is_float64_iff)
  have u: "0 < ulp a" by (rule ulp_pos)
  define k where "k = round_half_even (a / ulp a)"
  have a: "a = real_of_int k * ulp a" using ra assms(2) by (simp add: rnd_pos_eq k_def)
  have "0 < real_of_int k" using a assms(2) u by (metis zero_less_mult_pos2)
  then have "1 \<le> real_of_int k" by simp
  then have "1 * ulp a \<le> real_of_int k * ulp a" using u by (intro mult_right_mono) simp_all
  then have "ulp a \<le> a" using a by simp
  moreover have "2 powr real_of_int (- 1074) \<le> ulp a"
    unfolding ulp_def using binade_lower [of a] by (intro powr_mono) simp_all
  ultimately show ?thesis by linarith
qed

lemma product_negative:
  assumes "is_float64 a" and "0 < a" and "fmul (fneg fator_escala) (Finite a) \<noteq> NegInf"
  obtains m where "fmul (fneg fator_escala) (Finite a) = Finite m" and "m < 0"
proof -
  obtain f where f: "fator_escala = Finite f" "13 / 8 \<le> f" "f \<le> 7 / 4"
    by (rule fator_escala_bounds)
  have eq: "fmul (fneg fator_escala) (Finite a) = fl64 (- (f * a))" by (simp add: f(1))
  have "1 * a \<le> f * a" using f assms(2) by (intro mult_right_mono) simp_all
  then have "2 powr real_of_int (- 1074) \<le> f * a"
    using float_pos_ge_min [OF assms(1,2)] by simp
  from rnd_mono [OF this] have "2 powr real_of_int (- 1074) \<le> rnd (f * a)"
    using rnd_pow2 [of "- 1074"] by simp
  moreover have "(0::real) < 2 powr real_of_int (- 1074)" by simp
  ultimately have "0 < rnd (f * a)" by linarith
  then have neg: "rnd (- (f * a)) < 0" by (simp add: rnd_neg)
  show ?thesis
  proof (cases "- (f * a)" rule: fl64_cases)
    case fin
    then show ?thesis using that eq neg by simp
  next
    case pos
    have "0 < f * a" using f assms(2) by (intro mult_pos_pos) simp_all
    with pos(3) show ?thesis by simp
  next
    case neg
    then show ?thesis using assms(3) eq by simp
  qed
qed

lemma fsub_mono:
  assumes "theta1 \<le> theta2"
  shows "fle (fsub (Finite theta1) (Finite b)) (fsub (Finite theta2) (Finite b))"
  using assms by (simp add: fsub_def fl64_mono)

lemma fsub_not_NaN: "fsub (Finite theta) (Finite b) \<noteq> NaN"
  by (simp add: fsub_def fl64_not_NaN)

lemma fmul_neg_antimono:
  assumes "m < 0" and "fle d1 d2"
  shows "fle (fmul (Finite m) d2) (fmul (Finite m) d1)"
proof (cases d1)
  case (Finite u)
  show ?thesis
  proof (cases d2)
    case f2: (Finite v)
    have "m * v \<le> m * u" using assms Finite f2 by (simp add: mult_left_mono_neg)
    then show ?thesis using Finite f2 by (simp add: fl64_mono)
  next
    case PosInf
    then show ?thesis using assms Finite by (simp add: fle_NegInf fl64_not_NaN)
  next
    case NegInf
    then show ?thesis using assms Finite by simp
  next
    case NaN
    then show ?thesis using assms Finite by simp
  qed
next
  case PosInf
  then show ?thesis using assms by (cases d2) simp_all
next
  case NegInf
  then show ?thesis using assms by (cases d2) (simp_all add: fle_PosInf fl64_not_NaN)
next
  case NaN
  then show ?thesis using assms by simp
qed

lemma np_exp_nonneg:
  assumes "u \<noteq> NaN"
  shows "fle (Finite 0) (np_exp u)"
  using assms by (cases u) (simp_all add: fl64_nonneg)

lemma np_exp_mono:
  assumes "fle u v"
  shows "fle (np_exp u) (np_exp v)"
proof (cases u)
  case (Finite r)
  then show ?thesis using assms by (cases v) (simp_all add: fl64_mono fle_PosInf fl64_not_NaN)
next
  case PosInf
  then show ?thesis using assms by (cases v) simp_all
next
  case NegInf
  then show ?thesis using assms np_exp_nonneg [of v] by (cases v) simp_all
next
  case NaN
  then show ?thesis using assms by simp
qed

lemma fadd_left_mono:
  assumes "fle u v"
  shows "fle (fadd (Finite w) u) (fadd (Finite w) v)"
proof (cases u)
  case (Finite r)
  then show ?thesis using assms by (cases v) (simp_all add: fl64_mono fle_PosInf fl64_not_NaN)
next
  case PosInf
  then show ?thesis using assms by (cases v) simp_all
next
  case NegInf
  then show ?thesis using assms by (cases v) (simp_all add: fle_NegInf fl64_not_NaN)
next
  case NaN
  then show ?thesis using assms by simp
qed

lemma one_plus_ge:
  assumes "fle (Finite 0) e"
  shows "fle (Finite 1) (fadd (Finite 1) e)"
  using fadd_left_mono [OF assms, of 1] by (simp add: fl64_1)

lemma fle_trans:
  assumes "fle u v" and "fle v w"
  shows "fle u w"
  using assms by (cases u; cases v; cases w) simp_all

lemma fdiv_one_range:
  assumes "fle (Finite 1) y"
  obtains t where "fdiv (Finite 1) y = Finite t" and "0 \<le> t" and "t \<le> 1"
proof (cases y)
  case (Finite r)
  with assms have r: "1 \<le> r" by simp
  then have "0 \<le> 1 / r" "1 / r \<le> 1" by simp_all
  from fl64_between [OF this is_float64_0 is_float64_1]
  have "fl64 (1 / r) = Finite (rnd (1 / r))" "0 \<le> rnd (1 / r)" "rnd (1 / r) \<le> 1" by simp_all
  then show ?thesis using that Finite r by simp
next
  case PosInf
  then show ?thesis using that by simp
next
  case NegInf
  then show ?thesis using assms by simp
next
  case NaN
  then show ?thesis using assms by simp
qed

lemma fdiv_one_antimono:
  assumes "fle (Finite 1) y1" and "fle y1 y2"
  shows "fle (fdiv (Finite 1) y2) (fdiv (Finite 1) y1)"
proof (cases y1)
  case (Finite r)
  with assms have r: "1 \<le> r" by simp
  show ?thesis
  proof (cases y2)
    case f2: (Finite s)
    with assms Finite have "r \<le> s" by simp
    then have "1 / s \<le> 1 / r" using r by (simp add: frac_le)
    then show ?thesis using Finite f2 r \<open>r \<le> s\<close> by (simp add: fl64_mono)
  next
    case PosInf
    have "0 \<le> 1 / r" using r by simp
    then show ?thesis using Finite PosInf r by (simp add: fl64_nonneg)
  next
    case NegInf
    then show ?thesis using assms Finite by simp
  next
    case NaN
    then show ?thesis using assms by (simp add: fle_not_NaN)
  qed
next
  case PosInf
  then show ?thesis using assms by (cases y2) simp_all
next
  case NegInf
  then show ?thesis using assms by simp
next
  case NaN
  then show ?thesis using assms by simp
qed

lemma logistic_range:
  assumes "m < 0" and "d \<noteq> NaN"
  obtains t where
    "fdiv (Finite 1) (fadd (Finite 1) (np_exp (fmul (Finite m) d))) = Finite t"
    and "0 \<le> t" and "t \<le> 1"
proof -
  have "fmul (Finite m) d \<noteq> NaN" using assms by (cases d) (simp_all add: fl64_not_NaN)
  then have "fle (Finite 0) (np_exp (fmul (Finite m) d))" by (rule np_exp_nonneg)
  then have "fle (Finite 1) (fadd (Finite 1) (np_exp (fmul (Finite m) d)))" by (rule one_plus_ge)
  from fdiv_one_range [OF this] show ?thesis using that by blast
qed

lemma logistic_mono:
  assumes "m < 0" and "fle d1 d2"
  shows "fle (fdiv (Finite 1) (fadd (Finite 1) (np_exp (fmul (Finite m) d1))))
             (fdiv (Finite 1) (fadd (Finite 1) (np_exp (fmul (Finite m) d2))))"
proof -
  have x: "fle (fmul (Finite m) d2) (fmul (Finite m) d1)"
    using assms by (rule fmul_neg_antimono)
  then have e: "fle (np_exp (fmul (Finite m) d2)) (np_exp (fmul (Finite m) d1))"
    by (rule np_exp_mono)
  then have y: "fle (fadd (Finite 1) (np_exp (fmul (Finite m) d2)))
                    (fadd (Finite 1) (np_exp (fmul (Finite m) d1)))"
    by (rule fadd_left_mono)
  have "fmul (Finite m) d2 \<noteq> NaN" using x by (simp add: fle_not_NaN)
  then have "fle (Finite 0) (np_exp (fmul (Finite m) d2))" by (rule np_exp_nonneg)
  then have "fle (Finite 1) (fadd (Finite 1) (np_exp (fmul (Finite m) d2)))" by (rule one_plus_ge)
  from fdiv_one_antimono [OF this y] show ?thesis .
qed

lemma one_minus_c:
  assumes "0 \<le> c" and "c < 1"
  shows "fsub (Finite 1) (Finite c) = Finite (rnd (1 - c))"
    and "0 \<le> rnd (1 - c)" and "rnd (1 - c) \<le> 1"
    and "rnd (1 - c) \<le> 1 - c + 1 / 2 ^ 53"
    and "is_float64 (rnd (1 - c))"
proof -
  have "0 \<le> 1 - c" "1 - c \<le> 1" using assms by simp_all
  from fl64_between [OF this is_float64_0 is_float64_1]
  have f: "fl64 (1 - c) = Finite (rnd (1 - c))" and lo: "0 \<le> rnd (1 - c)"
    and hi: "rnd (1 - c) \<le> 1" by simp_all
  show "fsub (Finite 1) (Finite c) = Finite (rnd (1 - c))" using f by (simp add: fsub_def)
  show "0 \<le> rnd (1 - c)" by (rule lo)
  show "rnd (1 - c) \<le> 1" by (rule hi)
  have pos: "0 < 1 - c" using assms by simp
  have e1: "rnd (1 - c) - (1 - c) \<le> ulp (1 - c) / 2"
    using rnd_error_pos [OF pos] by linarith
  have "ulp (1 - c) \<le> 1 / 2 ^ 52" using pos assms by (intro ulp_small) simp_all
  then have e2: "ulp (1 - c) / 2 \<le> 1 / 2 ^ 53" by simp
  show "rnd (1 - c) \<le> 1 - c + 1 / 2 ^ 53" using e1 e2 by linarith
  have "\<bar>rnd (1 - c)\<bar> < 2 ^ 1024" using lo hi by simp
  then show "is_float64 (rnd (1 - c))" by (simp add: is_float64_iff rnd_idem)
qed

lemma top_stage:
  assumes "0 \<le> c" and "c < 1" and "is_float64 c" and "0 \<le> t" and "t \<le> 1"
  shows "fadd (Finite c) (fmul (fsub (Finite 1) (Finite c)) (Finite t))
           = Finite (rnd (c + rnd (rnd (1 - c) * t)))"
    and "c \<le> rnd (c + rnd (rnd (1 - c) * t))"
    and "rnd (c + rnd (rnd (1 - c) * t)) \<le> 1"
proof -
  define d where "d = rnd (1 - c)"
  note dc = one_minus_c [OF assms(1,2), folded d_def]
  have "0 \<le> d * t" "d * t \<le> d"
    using dc(2) assms(4,5) by (simp_all add: mult_left_le)
  from fl64_between [OF this is_float64_0 dc(5)]
  have w: "fl64 (d * t) = Finite (rnd (d * t))" "0 \<le> rnd (d * t)" "rnd (d * t) \<le> d"
    by simp_all
  have rc: "rnd c = c" using assms(3) by (simp add: is_float64_iff)
  have "c \<le> c + rnd (d * t)" using w(2) by simp
  from rnd_mono [OF this] show lo: "c \<le> rnd (c + rnd (d * t))" by (simp add: rc)
  have "c + rnd (d * t) \<le> 1 + 1 / 2 ^ 53" using w(3) dc(4) by simp
  from rnd_mono [OF this] show hi: "rnd (c + rnd (d * t)) \<le> 1" by (simp only: rnd_tie_one)
  have "\<bar>rnd (c + rnd (d * t))\<bar> < 2 ^ 1024" using lo hi assms(1) by simp
  then have "fl64 (c + rnd (d * t)) = Finite (rnd (c + rnd (d * t)))" by (simp add: fl64_def)
  then show "fadd (Finite c) (fmul (fsub (Finite 1) (Finite c)) (Finite t))
           = Finite (rnd (c + rnd (d * t)))"
    by (simp add: dc(1) w(1))
qed

lemma top_stage_mono:
  assumes "0 \<le> c" and "c < 1" and "t1 \<le> t2"
  shows "rnd (c + rnd (rnd (1 - c) * t1)) \<le> rnd (c + rnd (rnd (1 - c) * t2))"
proof -
  have "0 \<le> rnd (1 - c)" using assms by (intro rnd_nonneg) simp
  then have "rnd (1 - c) * t1 \<le> rnd (1 - c) * t2" using assms(3) by (rule mult_left_mono [rotated])
  then have "rnd (rnd (1 - c) * t1) \<le> rnd (rnd (1 - c) * t2)" by (rule rnd_mono)
  then show ?thesis by (intro rnd_mono) simp
qed

lemma is_float64_6: "is_float64 6"
  using is_float64_int [of 6] by simp

subsection \<open>Degenerate response patterns\<close>

text \<open>
  C1. When every response is 1, or every response is 0, \<open>estimar_proficiencia\<close> returns
  the absent value \<open>None\<close> at once: no exception, no numeric theta, the message about
  the extreme pattern printed, and the optimizer not called (the number of its calls is
  unchanged, and the outcome is the same for every optimizer). This holds for any list of
  items, so in particular for valid items of the same length as the responses.
\<close>

theorem estimar_proficiencia_degenerate:
  assumes "(\<forall>r\<in>set respostas. r = 1) \<or> (\<forall>r\<in>set respostas. r = 0)"
  shows "fst (estimar_proficiencia minimize respostas parametros_itens w) = Inr None
       \<and> minimize_calls (snd (estimar_proficiencia minimize respostas parametros_itens w))
           = minimize_calls w
       \<and> stdout (snd (estimar_proficiencia minimize respostas parametros_itens w))
           = stdout w @ [msg_padrao_extremo]"
  using assms by (auto simp: estimar_proficiencia_def print_def list_all_iff)

theorem estimar_proficiencia_degenerate_witness:
  "((\<forall>r\<in>set [1, 1, 1, 1, 1 :: int]. r = 1) \<or> (\<forall>r\<in>set [1, 1, 1, 1, 1 :: int]. r = 0))
   \<and> fst (estimar_proficiencia (minimize_converge 0) [1, 1, 1, 1, 1]
        [(12 / 10, - 5 / 10, 2 / 10), (9 / 10, 3 / 10, 25 / 100), (15 / 10, - 1, 15 / 100),
         (11 / 10, 0, 2 / 10), (1, 12 / 10, 25 / 100)] w0) = Inr None
   \<and> minimize_calls (snd (estimar_proficiencia (minimize_converge 0) [1, 1, 1, 1, 1]
        [(12 / 10, - 5 / 10, 2 / 10), (9 / 10, 3 / 10, 25 / 100), (15 / 10, - 1, 15 / 100),
         (11 / 10, 0, 2 / 10), (1, 12 / 10, 25 / 100)] w0)) = 0"
  using estimar_proficiencia_degenerate [of "[1, 1, 1, 1, 1]" "minimize_converge 0"
     "[(12 / 10, - 5 / 10, 2 / 10), (9 / 10, 3 / 10, 25 / 100), (15 / 10, - 1, 15 / 100),
       (11 / 10, 0, 2 / 10), (1, 12 / 10, 25 / 100)]" w0]
  by (simp add: w0_def)

subsection \<open>The score transformation\<close>


subsection \<open>The probability function\<close>

text \<open>
  C3, as the code has it. For every float64 item with \<open>a > 0\<close> and \<open>0 \<le> c < 1\<close> whose
  product \<open>1.7 * a\<close> does not overflow, and every finite theta, the probability is a
  finite number with \<open>c \<le> p \<le> 1\<close>, and it is non-decreasing in theta.
\<close>

theorem probabilidade_acerto_monotone_bounded:
  assumes "0 < a" and "0 \<le> c" and "c < 1" and "is_float64 a" and "is_float64 c"
    and "fmul (fneg fator_escala) (Finite a) \<noteq> NegInf"
  shows "(\<exists>p. probabilidade_acerto theta a b c = Finite p \<and> c \<le> p \<and> p \<le> 1)
       \<and> (\<forall>theta1 theta2. theta1 \<le> theta2 \<longrightarrow>
            (\<exists>p1 p2. probabilidade_acerto theta1 a b c = Finite p1
                   \<and> probabilidade_acerto theta2 a b c = Finite p2 \<and> p1 \<le> p2))"
proof -
  obtain m where m: "fmul (fneg fator_escala) (Finite a) = Finite m" "m < 0"
    using product_negative [OF assms(4,1,6)] by blast
  have val: "\<exists>t. 0 \<le> t \<and> t \<le> 1
          \<and> fdiv (Finite 1) (fadd (Finite 1)
               (np_exp (fmul (Finite m) (fsub (Finite th) (Finite b))))) = Finite t
          \<and> probabilidade_acerto th a b c = Finite (rnd (c + rnd (rnd (1 - c) * t)))" for th
  proof -
    obtain t where t:
      "fdiv (Finite 1) (fadd (Finite 1)
         (np_exp (fmul (Finite m) (fsub (Finite th) (Finite b))))) = Finite t"
      "0 \<le> t" "t \<le> 1"
      using logistic_range [OF m(2) fsub_not_NaN] by blast
    have "probabilidade_acerto th a b c = Finite (rnd (c + rnd (rnd (1 - c) * t)))"
      unfolding probabilidade_acerto_def Let_def m(1) t(1)
      by (rule top_stage(1) [OF assms(2,3,5) t(2,3)])
    then show ?thesis using t by blast
  qed
  show ?thesis
  proof (intro conjI allI impI)
    obtain t where t: "0 \<le> t" "t \<le> 1"
      "probabilidade_acerto theta a b c = Finite (rnd (c + rnd (rnd (1 - c) * t)))"
      using val [of theta] by blast
    show "\<exists>p. probabilidade_acerto theta a b c = Finite p \<and> c \<le> p \<and> p \<le> 1"
      using t(3) top_stage(2,3) [OF assms(2,3,5) t(1,2)] by blast
  next
    fix theta1 theta2 :: real
    assume le: "theta1 \<le> theta2"
    obtain t1 where t1: "0 \<le> t1" "t1 \<le> 1"
      "fdiv (Finite 1) (fadd (Finite 1)
         (np_exp (fmul (Finite m) (fsub (Finite theta1) (Finite b))))) = Finite t1"
      "probabilidade_acerto theta1 a b c = Finite (rnd (c + rnd (rnd (1 - c) * t1)))"
      using val [of theta1] by blast
    obtain t2 where t2: "0 \<le> t2" "t2 \<le> 1"
      "fdiv (Finite 1) (fadd (Finite 1)
         (np_exp (fmul (Finite m) (fsub (Finite theta2) (Finite b))))) = Finite t2"
      "probabilidade_acerto theta2 a b c = Finite (rnd (c + rnd (rnd (1 - c) * t2)))"
      using val [of theta2] by blast
    have "fle (Finite t1) (Finite t2)"
      using logistic_mono [OF m(2) fsub_mono [OF le, of b]] by (simp only: t1(3) t2(3))
    then have "t1 \<le> t2" by simp
    from top_stage_mono [OF assms(2,3) this]
    show "\<exists>p1 p2. probabilidade_acerto theta1 a b c = Finite p1
                   \<and> probabilidade_acerto theta2 a b c = Finite p2 \<and> p1 \<le> p2"
      using t1(4) t2(4) by blast
  qed
qed

theorem probabilidade_acerto_monotone_bounded_witness:
  "(0::real) < 6 \<and> (0::real) \<le> 1 / 4 \<and> (1::real) / 4 < 1 \<and> is_float64 6 \<and> is_float64 (1 / 4)
   \<and> fmul (fneg fator_escala) (Finite 6) \<noteq> NegInf
   \<and> (\<exists>p. probabilidade_acerto 4 6 0 (1 / 4) = Finite p \<and> 1 / 4 \<le> p \<and> p \<le> 1)
   \<and> (\<exists>p1 p2. probabilidade_acerto 0 6 0 (1 / 4) = Finite p1
              \<and> probabilidade_acerto 4 6 0 (1 / 4) = Finite p2 \<and> p1 \<le> p2)"
proof -
  obtain g where g: "fmul (fneg fator_escala) (Finite 6) = Finite g" by (rule fator_times_six)
  then have n: "fmul (fneg fator_escala) (Finite 6) \<noteq> NegInf" by simp
  have h: "(0::real) < 6" "(0::real) \<le> 1 / 4" "(1::real) / 4 < 1" by simp_all
  from probabilidade_acerto_monotone_bounded [OF h is_float64_6 is_float64_1_4 n, of 4 0]
  show ?thesis using n is_float64_6 is_float64_1_4 by simp
qed

text \<open>
  The bound \<open>p < 1\<close> and the strict increase do not hold of the float64 result: for the
  valid item \<open>a = 6\<close>, \<open>b = 0\<close>, \<open>c = 0.25\<close> the exponential is below half a unit in
  the last place of 1, the logistic factor rounds to 1, and the probability is exactly 1.0
  at \<open>theta = 4\<close> and again at \<open>theta = 5\<close>.
\<close>

theorem probabilidade_acerto_saturates:
  "probabilidade_acerto 4 6 0 (1 / 4) = Finite 1 \<and> probabilidade_acerto 5 6 0 (1 / 4) = Finite 1"
proof
  obtain h where h:
    "fmul (fmul (fneg fator_escala) (Finite 6)) (fsub (Finite 4) (Finite 0)) = Finite h"
    "h \<le> - 39"
    using expoente_low [of 4] is_float64_4 by auto
  show "probabilidade_acerto 4 6 0 (1 / 4) = Finite 1"
    unfolding probabilidade_acerto_def Let_def h(1) exp_saturates [OF h(2)]
    by (rule top_quarter)
next
  obtain h where h:
    "fmul (fmul (fneg fator_escala) (Finite 6)) (fsub (Finite 5) (Finite 0)) = Finite h"
    "h \<le> - 39"
    using expoente_low [of 5] is_float64_5 by auto
  show "probabilidade_acerto 5 6 0 (1 / 4) = Finite 1"
    unfolding probabilidade_acerto_def Let_def h(1) exp_saturates [OF h(2)]
    by (rule top_quarter)
qed

text \<open>
  C4, as the code has it. At \<open>theta = b\<close> the probability is the midpoint
  \<open>c + (1 - c) / 2\<close> as float64 computes it, bit for bit, for every item whose product
  \<open>1.7 * a\<close> does not overflow (so for every \<open>a\<close> up to about 1.05e308).
\<close>

theorem probabilidade_acerto_midpoint:
  assumes "fmul (fneg fator_escala) (Finite a) = Finite m"
  shows "probabilidade_acerto b a b c
           = fadd (Finite c) (fdiv (fsub (Finite 1) (Finite c)) (Finite 2))"
  using assms
  by (simp add: probabilidade_acerto_def Let_def fsub_self fl64_0 fl64_1 fl64_2 fl64_half
        fmul_half)


theorem probabilidade_acerto_midpoint_witness:
  "(\<exists>m. fmul (fneg fator_escala) (Finite 1) = Finite m)
   \<and> probabilidade_acerto 0 1 0 (1 / 4) = Finite (5 / 8)"
proof -
  obtain m where m: "fmul (fneg fator_escala) (Finite 1) = Finite m"
    by (rule fator_times_one)
  from probabilidade_acerto_midpoint [OF m, of 0 "1 / 4"] show ?thesis using m by (simp add: midpoint_quarter)
qed


text \<open>
  Beyond that the midpoint is lost: for the valid item with \<open>a = 3 * 2 ^ 1022\<close> (about
  1.35e308) and \<open>c = 0.25\<close> the product \<open>-1.7 * a\<close> is \<open>-inf\<close>, its product with
  \<open>theta - b = 0.0\<close> is \<open>nan\<close>, and the function returns \<open>nan\<close>, where the midpoint
  is 0.625.
\<close>

theorem probabilidade_acerto_midpoint_overflow:
  "is_float64 (3 * 2 ^ 1022) \<and> is_float64 (1 / 4)
   \<and> probabilidade_acerto 0 (3 * 2 ^ 1022) 0 (1 / 4) = NaN
   \<and> fadd (Finite (1 / 4)) (fdiv (fsub (Finite 1) (Finite (1 / 4))) (Finite 2)) = Finite (5 / 8)"
  using is_float64_big is_float64_1_4 fator_times_big midpoint_quarter
  by (simp add: probabilidade_acerto_def Let_def fsub_self fadd_NaN_right fmul_NaN_right
        fdiv_NaN_right)

subsection \<open>Facts about the loop of the negative log-likelihood\<close>

lemma loop_append:
  "log_verossimilhanca_loop theta its (xs @ ys) acc =
     (case log_verossimilhanca_loop theta its xs acc of
        Inl e \<Rightarrow> Inl e
      | Inr acc' \<Rightarrow> log_verossimilhanca_loop theta its ys acc')"
  by (induction theta its xs acc rule: log_verossimilhanca_loop.induct)
     (simp_all add: Let_def split: prod.splits)

lemma loop_in_range:
  assumes "\<forall>(i, r)\<in>set xs. i < length its"
  shows "\<exists>v. log_verossimilhanca_loop theta its xs acc = Inr v"
  using assms
  by (induction theta its xs acc rule: log_verossimilhanca_loop.induct)
     (simp_all add: Let_def split: prod.splits)

lemma loop_out_of_range:
  assumes "\<exists>(i, r)\<in>set xs. length its \<le> i"
  shows "log_verossimilhanca_loop theta its xs acc = Inl IndexError"
  using assms
proof (induction xs arbitrary: acc)
  case Nil
  then show ?case by simp
next
  case (Cons ir xs)
  obtain i r where ir: "ir = (i, r)" by (cases ir)
  show ?case
  proof (cases "i < length its")
    case True
    with Cons.prems ir have "\<exists>(i, r)\<in>set xs. length its \<le> i" by auto
    from Cons.IH [OF this] show ?thesis
      using ir True by (simp add: Let_def split: prod.splits)
  next
    case False
    then show ?thesis using ir by simp
  qed
qed

lemma enumerate_indices: "(i, r) \<in> set (enumerate n rs) \<Longrightarrow> n \<le> i \<and> i < n + length rs"
  by (auto simp: in_set_enumerate_eq)

lemma loop_closed_form:
  assumes "n + length rs \<le> length its"
  shows "log_verossimilhanca_loop theta its (enumerate n rs) acc =
     Inr (foldl fadd acc
       (map (\<lambda>(resposta, a, b, c).
               if resposta = 1
               then np_log (fadd (probabilidade_acerto theta a b c) epsilon)
               else np_log (fadd (fsub (Finite 1) (probabilidade_acerto theta a b c)) epsilon))
          (zip rs (drop n its))))"
  using assms
proof (induction rs arbitrary: n acc)
  case Nil
  then show ?case by simp
next
  case (Cons r rs)
  then have n: "n < length its" and rest: "Suc n + length rs \<le> length its" by simp_all
  have d: "drop n its = its ! n # drop (Suc n) its" using n by (simp add: Cons_nth_drop_Suc)
  obtain a b c where abc: "its ! n = (a, b, c)" by (cases "its ! n")
  show ?case
    using Cons.IH [OF rest] n by (simp add: d abc Let_def)
qed

lemma loop_normalise:
  "log_verossimilhanca_loop theta its (map (\<lambda>(i, r). (i, if r = 1 then 1 else 0)) xs) acc
     = log_verossimilhanca_loop theta its xs acc"
  by (induction theta its xs acc rule: log_verossimilhanca_loop.induct)
     (simp_all add: Let_def split: prod.splits)

lemma enumerate_map: "enumerate n (map f rs) = map (\<lambda>(i, r). (i, f r)) (enumerate n rs)"
  by (induction rs arbitrary: n) simp_all

subsection \<open>The negative log-likelihood\<close>

text \<open>
  C10. In \<open>log_verossimilhanca\<close> a response that is not exactly 1 (0, but also 2 or any
  other integer) counts as an incorrect answer, at every position: with at least as many
  items as responses the result is the negated sum, taken in the order of the list, of one
  term per response, \<open>log (p + epsilon)\<close> for a response of 1 and
  \<open>log (1 - p + epsilon)\<close> for every other response; and replacing every response other
  than 1 by 0 leaves the result unchanged.
\<close>

theorem log_verossimilhanca_non_one_scored_incorrect:
  assumes "length respostas \<le> length parametros_itens"
  shows "log_verossimilhanca theta respostas parametros_itens =
     Inr (fneg (foldl fadd (Finite 0)
       (map (\<lambda>(resposta, a, b, c).
               if resposta = 1
               then np_log (fadd (probabilidade_acerto theta a b c) epsilon)
               else np_log (fadd (fsub (Finite 1) (probabilidade_acerto theta a b c)) epsilon))
          (zip respostas parametros_itens))))
     \<and> log_verossimilhanca theta (map (\<lambda>r. if r = 1 then 1 else 0) respostas) parametros_itens
         = log_verossimilhanca theta respostas parametros_itens"
proof
  show "log_verossimilhanca theta respostas parametros_itens =
     Inr (fneg (foldl fadd (Finite 0)
       (map (\<lambda>(resposta, a, b, c).
               if resposta = 1
               then np_log (fadd (probabilidade_acerto theta a b c) epsilon)
               else np_log (fadd (fsub (Finite 1) (probabilidade_acerto theta a b c)) epsilon))
          (zip respostas parametros_itens))))"
    using loop_closed_form [of 0 respostas parametros_itens theta "Finite 0"] assms
    by (simp add: log_verossimilhanca_def)
next
  show "log_verossimilhanca theta (map (\<lambda>r. if r = 1 then 1 else 0) respostas) parametros_itens
         = log_verossimilhanca theta respostas parametros_itens"
    by (simp add: log_verossimilhanca_def enumerate_map loop_normalise)
qed


theorem log_verossimilhanca_non_one_scored_incorrect_witness:
  "length [2, 1 :: int] \<le> length [(1, 0, 1 / 4), (2, 1, 1 / 2) :: item]
   \<and> log_verossimilhanca 0 [2, 1] [(1, 0, 1 / 4), (2, 1, 1 / 2)] =
       Inr (fneg (fadd (fadd (Finite 0)
              (np_log (fadd (fsub (Finite 1) (probabilidade_acerto 0 1 0 (1 / 4))) epsilon)))
              (np_log (fadd (probabilidade_acerto 0 2 1 (1 / 2)) epsilon))))
   \<and> log_verossimilhanca 0 [2, 1] [(1, 0, 1 / 4), (2, 1, 1 / 2)]
       = log_verossimilhanca 0 [0, 1] [(1, 0, 1 / 4), (2, 1, 1 / 2)]"
  using log_verossimilhanca_non_one_scored_incorrect [of "[2, 1]" "[(1, 0, 1 / 4), (2, 1, 1 / 2)]" 0]
  by simp

subsection \<open>The estimator\<close>

text \<open>
  C9. For the empty response vector and any list of items, both tests of the degenerate
  pattern hold vacuously, and \<open>estimar_proficiencia\<close> returns \<open>None\<close> through that
  branch: no exception, the message about the extreme pattern printed, the optimizer not
  called.
\<close>

theorem estimar_proficiencia_empty:
  "list_all (\<lambda>r. r = 1) ([] :: int list) \<and> list_all (\<lambda>r. r = 0) ([] :: int list)
   \<and> fst (estimar_proficiencia minimize [] parametros_itens w) = Inr None
   \<and> minimize_calls (snd (estimar_proficiencia minimize [] parametros_itens w)) = minimize_calls w
   \<and> stdout (snd (estimar_proficiencia minimize [] parametros_itens w)) = stdout w @ [msg_padrao_extremo]"
  by (simp add: estimar_proficiencia_def print_def)

text \<open>
  C6, as the code has it. The estimator validates nothing and has no error for an
  invalid item. An empty response vector returns \<open>None\<close> (the degenerate branch). A
  response vector that is not degenerate reaches the optimizer, whatever the items
  are. The objective never rejects an item for its \<open>a\<close> or \<open>c\<close>: with at least as many
  items as responses it returns a value at every theta, and with fewer items than
  responses it raises IndexError at every theta.
\<close>

theorem estimar_proficiencia_no_validation:
  "(respostas = [] \<longrightarrow>
      fst (estimar_proficiencia minimize respostas parametros_itens w) = Inr None)
   \<and> (\<not> (list_all (\<lambda>r. r = 1) respostas \<or> list_all (\<lambda>r. r = 0) respostas) \<longrightarrow>
        minimize_calls (snd (estimar_proficiencia minimize respostas parametros_itens w))
          = Suc (minimize_calls w))
   \<and> (length respostas \<le> length parametros_itens \<longrightarrow>
        (\<exists>v. log_verossimilhanca theta respostas parametros_itens = Inr v))
   \<and> (length parametros_itens < length respostas \<longrightarrow>
        log_verossimilhanca theta respostas parametros_itens = Inl IndexError)"
proof (intro conjI impI)
  assume "respostas = []"
  then show "fst (estimar_proficiencia minimize respostas parametros_itens w) = Inr None"
    by (simp add: estimar_proficiencia_def)
next
  assume "\<not> (list_all (\<lambda>r. r = 1) respostas \<or> list_all (\<lambda>r. r = 0) respostas)"
  then show "minimize_calls (snd (estimar_proficiencia minimize respostas parametros_itens w))
          = Suc (minimize_calls w)"
    by (simp add: estimar_proficiencia_def Let_def print_def split: sum.splits list.splits)
next
  assume "length respostas \<le> length parametros_itens"
  then have "\<forall>(i, r)\<in>set (enumerate 0 respostas). i < length parametros_itens"
    by (auto dest: enumerate_indices)
  from loop_in_range [OF this] obtain v where
    "log_verossimilhanca_loop theta parametros_itens (enumerate 0 respostas) (Finite 0) = Inr v"
    by blast
  then show "\<exists>v. log_verossimilhanca theta respostas parametros_itens = Inr v"
    by (simp add: log_verossimilhanca_def)
next
  assume lt: "length parametros_itens < length respostas"
  then have "(length parametros_itens, respostas ! length parametros_itens)
               \<in> set (enumerate 0 respostas)"
    by (simp add: in_set_enumerate_eq)
  then have "\<exists>(i, r)\<in>set (enumerate 0 respostas). length parametros_itens \<le> i"
    by force
  from loop_out_of_range [OF this] show
    "log_verossimilhanca theta respostas parametros_itens = Inl IndexError"
    by (simp add: log_verossimilhanca_def)
qed

theorem estimar_proficiencia_no_validation_witness:
  "fst (estimar_proficiencia (minimize_converge 0) [] [(1, 0, 1 / 5)] w0) = Inr None
   \<and> \<not> (list_all (\<lambda>r. r = 1) [1, 0 :: int] \<or> list_all (\<lambda>r. r = 0) [1, 0 :: int])
   \<and> minimize_calls (snd (estimar_proficiencia (minimize_converge 0) [1, 0]
        [(- 1, 0, 2), (0, 0, - 1)] w0)) = 1
   \<and> length [1, 0 :: int] \<le> length [(- 1, 0, 2), (0, 0, - 1) :: item]
   \<and> (\<exists>v. log_verossimilhanca 0 [1, 0] [(- 1, 0, 2), (0, 0, - 1)] = Inr v)
   \<and> length [(1, 0, 1 / 5) :: item] < length [1, 0 :: int]
   \<and> log_verossimilhanca 0 [1, 0] [(1, 0, 1 / 5)] = Inl IndexError"
  using estimar_proficiencia_no_validation [of "[]" "minimize_converge 0" "[(1, 0, 1 / 5)]" w0 0]
    estimar_proficiencia_no_validation [of "[1, 0]" "minimize_converge 0" "[(- 1, 0, 2), (0, 0, - 1)]" w0 0]
    estimar_proficiencia_no_validation [of "[1, 0]" "minimize_converge 0" "[(1, 0, 1 / 5)]" w0 0]
  by (simp add: w0_def)

text \<open>
  The estimator does not reject invalid input before the optimization: the empty input,
  an all-correct vector with an item of \<open>a = -1\<close> and \<open>c = 2\<close>, and an all-correct
  vector longer than the item list all return \<open>None\<close> without an exception; a mixed vector
  with such an item is handed to the optimizer, whose result is returned.
\<close>

theorem estimar_proficiencia_invalid_input_not_rejected:
  "fst (estimar_proficiencia (minimize_converge 0) [] [] w0) = Inr None
   \<and> fst (estimar_proficiencia (minimize_converge 0) [1] [(- 1, 0, 2)] w0) = Inr None
   \<and> fst (estimar_proficiencia (minimize_converge 0) [1, 1] [(1, 0, 1 / 5)] w0) = Inr None
   \<and> estimar_proficiencia (minimize_converge 0) [1, 0] [(- 1, 0, 2), (1, 0, 1 / 5)] w0
       = (Inr (Some 0), \<lparr>stdout = [], minimize_calls = 1\<rparr>)"
  by (simp add: estimar_proficiencia_def Let_def minimize_converge_def w0_def)

text \<open>
  C8, as the code has it. When the response vector is not degenerate and the optimizer
  reports non-convergence, \<open>estimar_proficiencia\<close> returns the absent value \<open>None\<close>,
  not a best-effort theta, and prints the diagnostic of the solver on standard output
  after one call of the optimizer.
\<close>

theorem estimar_proficiencia_non_convergence:
  assumes "\<not> (list_all (\<lambda>r. r = 1) rs \<or> list_all (\<lambda>r. r = 0) rs)"
    and "minimize (\<lambda>theta. log_verossimilhanca theta rs its) 0 ''L-BFGS-B'' [(- 4, 4)] = Inr resultado"
    and "\<not> success resultado"
  shows "fst (estimar_proficiencia minimize rs its w) = Inr None
       \<and> stdout (snd (estimar_proficiencia minimize rs its w)) = stdout w @ [msg_falhou (message resultado)]
       \<and> minimize_calls (snd (estimar_proficiencia minimize rs its w)) = Suc (minimize_calls w)"
  using assms by (simp add: estimar_proficiencia_def Let_def print_def)

theorem estimar_proficiencia_non_convergence_witness:
  "\<not> (list_all (\<lambda>r. r = 1) [1, 0 :: int] \<or> list_all (\<lambda>r. r = 0) [1, 0 :: int])
   \<and> \<not> success \<lparr>success = False, x = [0], message = ''ABNORMAL_TERMINATION_IN_LNSRCH''\<rparr>
   \<and> fst (estimar_proficiencia (minimize_sem_convergencia ''ABNORMAL_TERMINATION_IN_LNSRCH'') [1, 0]
        [(1, 0, 1 / 5), (1, 0, 1 / 5)] w0) = Inr None
   \<and> stdout (snd (estimar_proficiencia (minimize_sem_convergencia ''ABNORMAL_TERMINATION_IN_LNSRCH'') [1, 0]
        [(1, 0, 1 / 5), (1, 0, 1 / 5)] w0)) = [msg_falhou ''ABNORMAL_TERMINATION_IN_LNSRCH'']
   \<and> minimize_calls (snd (estimar_proficiencia (minimize_sem_convergencia ''ABNORMAL_TERMINATION_IN_LNSRCH'') [1, 0]
        [(1, 0, 1 / 5), (1, 0, 1 / 5)] w0)) = 1"
  using estimar_proficiencia_non_convergence [of "[1, 0]" "minimize_sem_convergencia ''ABNORMAL_TERMINATION_IN_LNSRCH''"
      "[(1, 0, 1 / 5), (1, 0, 1 / 5)]"
      "\<lparr>success = False, x = [0], message = ''ABNORMAL_TERMINATION_IN_LNSRCH''\<rparr>" w0]
  by (simp add: minimize_sem_convergencia_def w0_def)

text \<open>
  The returned value does not carry the diagnostic: two failures of the solver with
  different diagnostics, and a degenerate response pattern, all return the same \<open>None\<close>.
\<close>

theorem estimar_proficiencia_diagnostic_not_returned:
  "fst (estimar_proficiencia (minimize_sem_convergencia ''ABNORMAL_TERMINATION_IN_LNSRCH'') [1, 0]
      [(1, 0, 1 / 5), (1, 0, 1 / 5)] w0) = Inr None
   \<and> fst (estimar_proficiencia (minimize_sem_convergencia ''STOP: TOTAL NO. of ITERATIONS REACHED LIMIT'') [1, 0]
      [(1, 0, 1 / 5), (1, 0, 1 / 5)] w0) = Inr None
   \<and> fst (estimar_proficiencia (minimize_sem_convergencia ''ABNORMAL_TERMINATION_IN_LNSRCH'') [1, 1]
      [(1, 0, 1 / 5), (1, 0, 1 / 5)] w0) = Inr None"
  by (simp add: estimar_proficiencia_def Let_def minimize_sem_convergencia_def)

end
